theory Spec2Isabelle
  imports Complex_Main "HOL-Library.AList" "HOL-Library.Multiset"
begin

section \<open>Annotation conversion: box fusion and dataset split\<close>

text \<open>
  A shallow embedding of \<^verbatim>\<open>final/training/convert_annotations.py\<close>.

  Numbers: the Python code computes with IEEE doubles (numpy \<^verbatim>\<open>float64\<close>). Here every
  coordinate, score and fraction is an exact rational (\<^typ>\<open>rat\<close>): rounding, infinities
  and NaN are not part of the model. A division whose divisor is zero is a value of its
  own, \<open>Inl ZeroDivision\<close>, so that every place where the code could divide by zero is
  a visible branch.
\<close>

subsection \<open>Errors and division\<close>

datatype py_error = ZeroDivision | KeyError

definition py_div :: "rat \<Rightarrow> rat \<Rightarrow> py_error + rat" where
  "py_div a b = (if b = 0 then Inl ZeroDivision else Inr (a / b))"

subsection \<open>Boxes and intersection over union\<close>

text \<open>A box is the array \<^verbatim>\<open>(x1, y1, x2, y2)\<close>; \<open>b0 \<dots> b3\<close> read \<^verbatim>\<open>box[0] \<dots> box[3]\<close>.\<close>

datatype box = Box (b0: rat) (b1: rat) (b2: rat) (b3: rat)

text \<open>
  \<^verbatim>\<open>
  def _iou(box1, box2):
      x1 = max(box1[0], box2[0]); y1 = max(box1[1], box2[1])
      x2 = min(box1[2], box2[2]); y2 = min(box1[3], box2[3])
      inter = max(0, x2 - x1) * max(0, y2 - y1)
      area1 = (box1[2] - box1[0]) * (box1[3] - box1[1])
      area2 = (box2[2] - box2[0]) * (box2[3] - box2[1])
      union = area1 + area2 - inter
      return inter / union if union > 0 else 0
  \<close>
\<close>

definition iou :: "box \<Rightarrow> box \<Rightarrow> py_error + rat" where
  "iou box1 box2 =
     (let x1 = max (b0 box1) (b0 box2);
          y1 = max (b1 box1) (b1 box2);
          x2 = min (b2 box1) (b2 box2);
          y2 = min (b3 box1) (b3 box2);
          inter = max 0 (x2 - x1) * max 0 (y2 - y1);
          area1 = (b2 box1 - b0 box1) * (b3 box1 - b1 box1);
          area2 = (b2 box2 - b0 box2) * (b3 box2 - b1 box2);
          union = area1 + area2 - inter
      in if union > 0 then py_div inter union else Inr 0)"

subsection \<open>Weighted boxes fusion\<close>

text \<open>
  \<^verbatim>\<open>
  for boxes, scores, labels in zip(boxes_list, scores_list, labels_list):
      for b, s, l in zip(boxes, scores, labels):
          if s > skip_box_thr:
              all_boxes.append(b); all_scores.append(s); all_labels.append(l)
  \<close>
  The three parallel lists \<^verbatim>\<open>all_boxes\<close>, \<^verbatim>\<open>all_scores\<close>, \<^verbatim>\<open>all_labels\<close> are one list of
  triples; \<open>zip\<close> stops at the shortest list, as Python's does.
\<close>

definition pool_boxes ::
  "box list list \<Rightarrow> rat list list \<Rightarrow> int list list \<Rightarrow> rat \<Rightarrow> (box \<times> rat \<times> int) list" where
  "pool_boxes boxes_list scores_list labels_list skip_box_thr =
     concat (map (\<lambda>(boxes, scores, labels).
                    filter (\<lambda>(b, s, l). s > skip_box_thr) (zip boxes (zip scores labels)))
                 (zip boxes_list (zip scores_list labels_list)))"

text \<open>\<^verbatim>\<open>np.unique\<close>: the distinct values, in ascending order.\<close>

definition np_unique :: "int list \<Rightarrow> int list" where
  "np_unique xs = sort (remdups xs)"

text \<open>
  The test \<^verbatim>\<open>_iou(label_boxes[i], label_boxes[j]) > iou_thr\<close>. The error branch is
  never taken (\<open>iou\<close> always returns a number, see \<open>iou_range\<close> below).
\<close>

definition iou_gt :: "box \<Rightarrow> box \<Rightarrow> rat \<Rightarrow> bool" where
  "iou_gt box1 box2 iou_thr = (case iou box1 box2 of Inr v \<Rightarrow> v > iou_thr | Inl e \<Rightarrow> False)"

text \<open>
  One round of the inner loop \<^verbatim>\<open>for j in range(i + 1, len(label_boxes))\<close>, on the state
  \<^verbatim>\<open>(used, cluster_boxes, cluster_scores)\<close>:
  \<^verbatim>\<open>
  if used[j]: continue
  if _iou(label_boxes[i], label_boxes[j]) > iou_thr:
      cluster_boxes.append(label_boxes[j]); cluster_scores.append(label_scores[j])
      used[j] = True
  \<close>
\<close>

definition scan_step ::
  "rat \<Rightarrow> box list \<Rightarrow> rat list \<Rightarrow> nat \<Rightarrow> nat \<Rightarrow>
   bool list \<times> box list \<times> rat list \<Rightarrow> bool list \<times> box list \<times> rat list" where
  "scan_step iou_thr label_boxes label_scores i j st =
     (case st of (used, cluster_boxes, cluster_scores) \<Rightarrow>
        if used ! j then st
        else if iou_gt (label_boxes ! i) (label_boxes ! j) iou_thr
        then (used[j := True],
              cluster_boxes @ [label_boxes ! j],
              cluster_scores @ [label_scores ! j])
        else st)"

text \<open>
  \<^verbatim>\<open>np.average(a, axis=0, weights=w)\<close> is \<open>(\<Sum> w\<^sub>i a\<^sub>i) / (\<Sum> w\<^sub>i)\<close>, column by column, and fails
  when the weights sum to zero; \<^verbatim>\<open>np.mean\<close> is the sum over the length.
\<close>

definition np_average :: "box list \<Rightarrow> rat list \<Rightarrow> py_error + box" where
  "np_average boxes weights =
     (let scl = sum_list weights in
      if scl = 0 then Inl ZeroDivision
      else Inr (Box (sum_list (map2 (\<lambda>b w. b0 b * w) boxes weights) / scl)
                    (sum_list (map2 (\<lambda>b w. b1 b * w) boxes weights) / scl)
                    (sum_list (map2 (\<lambda>b w. b2 b * w) boxes weights) / scl)
                    (sum_list (map2 (\<lambda>b w. b3 b * w) boxes weights) / scl)))"

definition np_mean :: "rat list \<Rightarrow> py_error + rat" where
  "np_mean xs = py_div (sum_list xs) (of_nat (length xs))"

text \<open>
  \<^verbatim>\<open>
  weights = np.array(cluster_scores)
  weights = weights / weights.sum()
  merged_box = np.average(cluster_boxes, axis=0, weights=weights)
  merged_score = np.mean(cluster_scores)
  \<close>
  A zero \<^verbatim>\<open>weights.sum()\<close> makes the merged box the error value (numpy yields NaN
  coordinates there).
\<close>

definition fuse_cluster :: "box list \<Rightarrow> rat list \<Rightarrow> (py_error + box) \<times> (py_error + rat)" where
  "fuse_cluster cluster_boxes cluster_scores =
     (let total = sum_list cluster_scores;
          merged_box =
            (if total = 0 then Inl ZeroDivision
             else np_average cluster_boxes (map (\<lambda>w. w / total) cluster_scores));
          merged_score = np_mean cluster_scores
      in (merged_box, merged_score))"

text \<open>
  One round of the outer loop \<^verbatim>\<open>for i in range(len(label_boxes))\<close>, on the state
  \<^verbatim>\<open>(used, final_boxes, final_scores, final_labels)\<close>: a box already used is skipped;
  otherwise it opens a cluster, the inner loop scans the later boxes, and the fused
  cluster is appended to the output.
\<close>

definition cluster_step ::
  "rat \<Rightarrow> box list \<Rightarrow> rat list \<Rightarrow> int \<Rightarrow> nat \<Rightarrow>
   bool list \<times> (py_error + box) list \<times> (py_error + rat) list \<times> int list \<Rightarrow>
   bool list \<times> (py_error + box) list \<times> (py_error + rat) list \<times> int list" where
  "cluster_step iou_thr label_boxes label_scores label i st =
     (case st of (used, final_boxes, final_scores, final_labels) \<Rightarrow>
        if used ! i then st
        else
          (case fold (scan_step iou_thr label_boxes label_scores i)
                     [i + 1..<length label_boxes]
                     (used[i := True], [label_boxes ! i], [label_scores ! i]) of
             (used', cluster_boxes, cluster_scores) \<Rightarrow>
               (case fuse_cluster cluster_boxes cluster_scores of
                  (merged_box, merged_score) \<Rightarrow>
                    (used',
                     final_boxes @ [merged_box],
                     final_scores @ [merged_score],
                     final_labels @ [label]))))"

text \<open>
  One round of \<^verbatim>\<open>for label in unique_labels\<close>: the boxes and scores of that label
  (\<^verbatim>\<open>mask = all_labels == label\<close>), a fresh \<^verbatim>\<open>used\<close> array, and the outer loop.
\<close>

definition label_step ::
  "rat \<Rightarrow> (box \<times> rat \<times> int) list \<Rightarrow> int \<Rightarrow>
   (py_error + box) list \<times> (py_error + rat) list \<times> int list \<Rightarrow>
   (py_error + box) list \<times> (py_error + rat) list \<times> int list" where
  "label_step iou_thr pooled label out =
     (let label_boxes = map fst (filter (\<lambda>(b, s, l). l = label) pooled);
          label_scores = map (fst \<circ> snd) (filter (\<lambda>(b, s, l). l = label) pooled);
          used = replicate (length label_boxes) False
      in snd (fold (cluster_step iou_thr label_boxes label_scores label)
                   [0..<length label_boxes]
                   (used, out)))"

definition weighted_boxes_fusion ::
  "box list list \<Rightarrow> rat list list \<Rightarrow> int list list \<Rightarrow> rat \<Rightarrow> rat \<Rightarrow>
   (py_error + box) list \<times> (py_error + rat) list \<times> int list" where
  "weighted_boxes_fusion boxes_list scores_list labels_list iou_thr skip_box_thr =
     (if length boxes_list = 0 then ([], [], [])
      else
        (let pooled = pool_boxes boxes_list scores_list labels_list skip_box_thr in
         if length pooled = 0 then ([], [], [])
         else fold (label_step iou_thr pooled)
                   (np_unique (map (snd \<circ> snd) pooled))
                   ([], [], [])))"

text \<open>The caller unpacks the result as
  \<^verbatim>\<open>merged_boxes, merged_scores, merged_labels = weighted_boxes_fusion(...)\<close>.\<close>

definition merged_boxes :: "'a \<times> 'b \<times> 'c \<Rightarrow> 'a" where
  "merged_boxes r = fst r"

definition merged_scores :: "'a \<times> 'b \<times> 'c \<Rightarrow> 'b" where
  "merged_scores r = fst (snd r)"

definition merged_labels :: "'a \<times> 'b \<times> 'c \<Rightarrow> 'c" where
  "merged_labels r = snd (snd r)"

subsection \<open>Python helpers used by the pipeline\<close>

text \<open>Running a loop whose body can fail: the first failure ends the run.\<close>

fun fold_err :: "('a \<Rightarrow> 's \<Rightarrow> py_error + 's) \<Rightarrow> 'a list \<Rightarrow> 's \<Rightarrow> py_error + 's" where
  "fold_err f [] s = Inr s"
| "fold_err f (x # xs) s = (case f x s of Inl e \<Rightarrow> Inl e | Inr s' \<Rightarrow> fold_err f xs s')"

text \<open>\<^verbatim>\<open>Series.unique()\<close>: the distinct values in order of first appearance.\<close>

definition pd_unique :: "'a list \<Rightarrow> 'a list" where
  "pd_unique xs = rev (remdups (rev xs))"

text \<open>\<^verbatim>\<open>int(x)\<close> on a finite float truncates towards zero.\<close>

definition py_int :: "rat \<Rightarrow> int" where
  "py_int x = (if 0 \<le> x then \<lfloor>x\<rfloor> else \<lceil>x\<rceil>)"

text \<open>
  The slices \<^verbatim>\<open>xs[:k]\<close> and \<^verbatim>\<open>xs[k:]\<close>: a negative \<open>k\<close> counts from the end, and an index
  outside the list is clipped to it.
\<close>

definition slice_index :: "int \<Rightarrow> nat \<Rightarrow> nat" where
  "slice_index k n = (if k < 0 then nat (max 0 (int n + k)) else min (nat k) n)"

definition slice_to :: "int \<Rightarrow> 'a list \<Rightarrow> 'a list" where
  "slice_to k xs = take (slice_index k (length xs)) xs"

definition slice_from :: "int \<Rightarrow> 'a list \<Rightarrow> 'a list" where
  "slice_from k xs = drop (slice_index k (length xs)) xs"

text \<open>
  What the interpreter contributes and the source does not determine:
  \<^item> \<open>random_draws seed p\<close> is the \<open>p\<close>-th raw draw of the generator after
    \<^verbatim>\<open>random.seed(seed)\<close>; \<^verbatim>\<open>randbelow(n)\<close> at position \<open>p\<close> returns
    \<open>random_draws seed p mod n\<close>, a value below \<open>n\<close>;
  \<^item> \<open>str_hash\<close> is the hash of strings in this process. Python salts it anew for every
    process (unless \<^verbatim>\<open>PYTHONHASHSEED\<close> is fixed); the order in which a set of strings is
    iterated follows the hashes, here ascending, elements of equal hash in insertion
    order;
  \<^item> \<open>float_round\<close> maps the exact value of a product to the float64 the interpreter
    computes for it. It is used for the two products of the split,
    \<^verbatim>\<open>len(...) * val_split\<close> and \<^verbatim>\<open>len(...) * include_no_finding_ratio\<close>, whose integer
    parts decide the split sizes.
\<close>

record interpreter =
  random_draws :: "int \<Rightarrow> nat \<Rightarrow> nat"
  str_hash :: "string \<Rightarrow> nat"
  float_round :: "rat \<Rightarrow> rat"

text \<open>
  \<^verbatim>\<open>
  def shuffle(self, x):
      for i in reversed(range(1, len(x))):
          j = randbelow(i + 1)
          x[i], x[j] = x[j], x[i]
  \<close>
  The state is the list and the position in the stream of draws.
\<close>

definition shuffle_step :: "(nat \<Rightarrow> nat) \<Rightarrow> nat \<Rightarrow> 'a list \<times> nat \<Rightarrow> 'a list \<times> nat" where
  "shuffle_step draws i st =
     (case st of (x, p) \<Rightarrow>
        (let j = draws p mod (i + 1) in (x[i := x ! j, j := x ! i], Suc p)))"

definition shuffle :: "(nat \<Rightarrow> nat) \<Rightarrow> nat \<Rightarrow> 'a list \<Rightarrow> 'a list \<times> nat" where
  "shuffle draws p x = fold (shuffle_step draws) (rev [1..<length x]) (x, p)"

text \<open>\<^verbatim>\<open>list(s)\<close> for a set \<open>s\<close> of strings, the set given by its elements without
  repetition.\<close>

definition list_of_set :: "interpreter \<Rightarrow> string list \<Rightarrow> string list" where
  "list_of_set py s = sort_key (str_hash py) s"

subsection \<open>The annotation table\<close>

text \<open>One row of \<^verbatim>\<open>train.csv\<close>. A coordinate that is NaN in the table is \<open>None\<close>.\<close>

record row =
  image_id :: string
  class_id :: int
  rad_id :: string
  x_min :: "rat option"
  y_min :: "rat option"
  x_max :: "rat option"
  y_max :: "rat option"
  raw_width :: rat
  raw_height :: rat
  scale_x :: rat
  scale_y :: rat

definition CLASS_NAMES :: "string list" where
  "CLASS_NAMES =
     [''Aortic enlargement'', ''Atelectasis'', ''Calcification'', ''Cardiomegaly'',
      ''Consolidation'', ''ILD'', ''Infiltration'', ''Lung Opacity'', ''Nodule/Mass'',
      ''Other lesion'', ''Pleural effusion'', ''Pleural thickening'', ''Pneumothorax'',
      ''Pulmonary fibrosis'']"

definition NUM_CLASSES :: nat where
  "NUM_CLASSES = length CLASS_NAMES"

subsection \<open>Step 2: finding and no-finding images\<close>

text \<open>
  \<^verbatim>\<open>
  finding_df = df[df['class_id'] != 14].copy()
  no_finding_ids = df[df['class_id'] == 14]['image_id'].unique()
  finding_ids = finding_df['image_id'].unique()
  pure_no_finding = set(no_finding_ids) - set(finding_ids)
  finding_df = finding_df.dropna(subset=['x_min', 'y_min', 'x_max', 'y_max'])
  \<close>
  The set \<^verbatim>\<open>pure_no_finding\<close> is the list of its elements, without repetition.
\<close>

definition finding_rows :: "row list \<Rightarrow> row list" where
  "finding_rows df = filter (\<lambda>r. class_id r \<noteq> 14) df"

definition no_finding_ids :: "row list \<Rightarrow> string list" where
  "no_finding_ids df = pd_unique (map image_id (filter (\<lambda>r. class_id r = 14) df))"

definition finding_ids :: "row list \<Rightarrow> string list" where
  "finding_ids df = pd_unique (map image_id (finding_rows df))"

definition pure_no_finding :: "row list \<Rightarrow> string list" where
  "pure_no_finding df = filter (\<lambda>i. i \<notin> set (finding_ids df)) (no_finding_ids df)"

definition dropna :: "row list \<Rightarrow> row list" where
  "dropna rows =
     filter (\<lambda>r. x_min r \<noteq> None \<and> y_min r \<noteq> None \<and> x_max r \<noteq> None \<and> y_max r \<noteq> None) rows"

subsection \<open>Step 3: grouping by image\<close>

text \<open>
  \<^verbatim>\<open>
  for _, row in finding_df.iterrows():
      img_id = row['image_id']
      display_w = row['raw_width'] * row['scale_x']
      display_h = row['raw_height'] * row['scale_y']
      image_display_sizes[img_id] = (display_w, display_h)
      image_annotations[img_id].append(row)
  \<close>
  A dict is an association list in insertion order: \<open>AList.update\<close> overwrites a key in
  place or appends a new one, \<open>AList.map_default\<close> is \<^verbatim>\<open>defaultdict(list)[k].append(v)\<close>.
\<close>

definition group_by :: "(row \<Rightarrow> string) \<Rightarrow> row list \<Rightarrow> (string \<times> row list) list" where
  "group_by key rows = fold (\<lambda>r d. AList.map_default (key r) [r] (\<lambda>rs. rs @ [r]) d) rows []"

definition image_display_sizes :: "row list \<Rightarrow> (string \<times> rat \<times> rat) list" where
  "image_display_sizes rows =
     fold (\<lambda>r d. AList.update (image_id r) (raw_width r * scale_x r, raw_height r * scale_y r) d)
          rows []"

subsection \<open>Step 4: fusion per image and YOLO lines\<close>

definition clamp01 :: "rat \<Rightarrow> rat" where
  "clamp01 x = max 0 (min 1 x)"

text \<open>
  \<^verbatim>\<open>x1 = r['x_min'] / disp_w;  x1 = max(0, min(1, x1))\<close>. The values are numpy floats:
  a division by zero does not raise, it yields \<open>inf\<close>, \<open>-inf\<close> or \<open>nan\<close>, and
  \<^verbatim>\<open>max(0, min(1, v))\<close> is 1 for \<open>inf\<close> and for \<open>nan\<close> (no comparison with \<open>nan\<close> is
  true, so \<^verbatim>\<open>min\<close> keeps its first argument) and 0 for \<open>-inf\<close>.
\<close>

definition norm_coord :: "rat \<Rightarrow> rat \<Rightarrow> rat" where
  "norm_coord c d = (if d = 0 then (if c < 0 then 0 else 1) else clamp01 (c / d))"

text \<open>
  \<^verbatim>\<open>
  x1 = r['x_min'] / disp_w;  y1 = r['y_min'] / disp_h
  x2 = r['x_max'] / disp_w;  y2 = r['y_max'] / disp_h
  x1 = max(0, min(1, x1)); ...
  if x2 <= x1 or y2 <= y1: continue
  boxes.append([x1, y1, x2, y2])
  \<close>
  \<open>None\<close> is the \<^verbatim>\<open>continue\<close>. A row with a missing coordinate never gets here
  (\<open>dropna\<close>).
\<close>

definition normalize_row :: "rat \<Rightarrow> rat \<Rightarrow> row \<Rightarrow> box option" where
  "normalize_row disp_w disp_h r =
     (case (x_min r, y_min r, x_max r, y_max r) of
        (Some xmin, Some ymin, Some xmax, Some ymax) \<Rightarrow>
          (let x1 = norm_coord xmin disp_w;
               y1 = norm_coord ymin disp_h;
               x2 = norm_coord xmax disp_w;
               y2 = norm_coord ymax disp_h
           in if x2 \<le> x1 \<or> y2 \<le> y1 then None else Some (Box x1 y1 x2 y2))
      | _ \<Rightarrow> None)"

text \<open>
  One round of \<^verbatim>\<open>for r in rad_rows\<close> on \<^verbatim>\<open>(boxes, scores, labels)\<close>: every box that is
  kept gets the score \<^verbatim>\<open>1.0\<close> and the label \<^verbatim>\<open>int(r['class_id'])\<close>.
\<close>

definition rad_row_step ::
  "rat \<Rightarrow> rat \<Rightarrow> row \<Rightarrow> box list \<times> rat list \<times> int list \<Rightarrow> box list \<times> rat list \<times> int list" where
  "rad_row_step disp_w disp_h r st =
     (case st of (boxes, scores, labels) \<Rightarrow>
        (case normalize_row disp_w disp_h r of
           None \<Rightarrow> st
         | Some b \<Rightarrow> (boxes @ [b], scores @ [1], labels @ [class_id r])))"

text \<open>
  One round of \<^verbatim>\<open>for rad_id, rad_rows in rad_groups.items()\<close> on
  \<^verbatim>\<open>(boxes_list, scores_list, labels_list)\<close>: a radiologist with no box left is left out.
\<close>

definition rad_group_step ::
  "rat \<Rightarrow> rat \<Rightarrow> string \<times> row list \<Rightarrow> box list list \<times> rat list list \<times> int list list \<Rightarrow>
   box list list \<times> rat list list \<times> int list list" where
  "rad_group_step disp_w disp_h g st =
     (case st of (boxes_list, scores_list, labels_list) \<Rightarrow>
        (case fold (rad_row_step disp_w disp_h) (snd g) ([], [], []) of
           (boxes, scores, labels) \<Rightarrow>
             if boxes \<noteq> []
             then (boxes_list @ [boxes], scores_list @ [scores], labels_list @ [labels])
             else st))"

definition fusion_inputs ::
  "rat \<Rightarrow> rat \<Rightarrow> row list \<Rightarrow> box list list \<times> rat list list \<times> int list list" where
  "fusion_inputs disp_w disp_h rows =
     fold (rad_group_step disp_w disp_h) (group_by rad_id rows) ([], [], [])"

text \<open>
  A label line \<^verbatim>\<open>"{int(label)} {x_center:.6f} {y_center:.6f} {width:.6f} {height:.6f}"\<close>
  is kept as its five values (class, centre, width, height); the rendering of the
  numbers as text with six decimals is not modelled.
  \<^verbatim>\<open>
  x_center = (box[0] + box[2]) / 2;  y_center = (box[1] + box[3]) / 2
  width = box[2] - box[0];  height = box[3] - box[1]
  x_center = max(0, min(1, x_center)); ...
  \<close>
  A merged box without coordinates (NaN in numpy) gives 1 four times, by the same
  \<^verbatim>\<open>max(0, min(1, nan))\<close>.
\<close>

type_synonym yolo_line = "int \<times> rat \<times> rat \<times> rat \<times> rat"

definition yolo_line_of :: "py_error + box \<Rightarrow> int \<Rightarrow> yolo_line" where
  "yolo_line_of merged_box label =
     (case merged_box of
        Inl e \<Rightarrow> (label, 1, 1, 1, 1)
      | Inr box \<Rightarrow>
          (label,
           clamp01 ((b0 box + b2 box) / 2),
           clamp01 ((b1 box + b3 box) / 2),
           clamp01 (b2 box - b0 box),
           clamp01 (b3 box - b1 box)))"

text \<open>
  One round of \<^verbatim>\<open>for img_id in image_annotations\<close> on the dict \<^verbatim>\<open>yolo_labels\<close>:
  \<^verbatim>\<open>
  rows = image_annotations[img_id];  disp_w, disp_h = image_display_sizes[img_id]
  ...
  if not boxes_list: continue
  merged_boxes, merged_scores, merged_labels = weighted_boxes_fusion(
      boxes_list, scores_list, labels_list, iou_thr=iou_thr)
  for box, label in zip(merged_boxes, merged_labels): yolo_lines.append(...)
  if yolo_lines: yolo_labels[img_id] = yolo_lines
  \<close>
  The call leaves \<^verbatim>\<open>skip_box_thr\<close> at its default \<^verbatim>\<open>0.0\<close>. A key missing from
  \<^verbatim>\<open>image_display_sizes\<close> would raise \<^verbatim>\<open>KeyError\<close>.
\<close>

definition image_lines :: "rat \<Rightarrow> rat \<Rightarrow> rat \<Rightarrow> row list \<Rightarrow> yolo_line list" where
  "image_lines iou_thr disp_w disp_h rows =
     (case fusion_inputs disp_w disp_h rows of
        (boxes_list, scores_list, labels_list) \<Rightarrow>
          if boxes_list = [] then []
          else
            (let merged = weighted_boxes_fusion boxes_list scores_list labels_list iou_thr 0
             in map (\<lambda>(box, label). yolo_line_of box label)
                    (zip (merged_boxes merged) (merged_labels merged))))"

definition image_step ::
  "rat \<Rightarrow> (string \<times> rat \<times> rat) list \<Rightarrow> string \<times> row list \<Rightarrow>
   (string \<times> yolo_line list) list \<Rightarrow> py_error + (string \<times> yolo_line list) list" where
  "image_step iou_thr sizes ia yolo_labels =
     (case map_of sizes (fst ia) of
        None \<Rightarrow> Inl KeyError
      | Some (disp_w, disp_h) \<Rightarrow>
          (let yolo_lines = image_lines iou_thr disp_w disp_h (snd ia)
           in if yolo_lines \<noteq> []
              then Inr (AList.update (fst ia) yolo_lines yolo_labels)
              else Inr yolo_labels))"

definition fuse_annotations ::
  "rat \<Rightarrow> row list \<Rightarrow> py_error + (string \<times> yolo_line list) list" where
  "fuse_annotations iou_thr finding_df =
     fold_err (image_step iou_thr (image_display_sizes finding_df))
              (group_by image_id finding_df) []"

subsection \<open>Step 5: the split\<close>

text \<open>
  \<^verbatim>\<open>
  finding_image_list = list(yolo_labels.keys());  random.shuffle(finding_image_list)
  val_count = int(len(finding_image_list) * val_split)
  val_images = set(finding_image_list[:val_count])
  train_images = set(finding_image_list[val_count:])
  no_finding_list = list(pure_no_finding);  random.shuffle(no_finding_list)
  n_no_finding = int(len(finding_image_list) * include_no_finding_ratio)
  n_no_finding = min(n_no_finding, len(no_finding_list))
  selected_no_finding = no_finding_list[:n_no_finding]
  nf_val = int(len(selected_no_finding) * val_split)
  no_finding_val = set(selected_no_finding[:nf_val])
  no_finding_train = set(selected_no_finding[nf_val:])
  train_images.update(no_finding_train);  val_images.update(no_finding_val)
  \<close>
  \<open>finding_val\<close> and \<open>finding_train\<close> are \<^verbatim>\<open>val_images\<close> and \<^verbatim>\<open>train_images\<close> before the
  two updates.
\<close>

record split =
  finding_image_list :: "string list"
  val_count :: int
  finding_val :: "string list"
  finding_train :: "string list"
  no_finding_list :: "string list"
  n_no_finding :: int
  selected_no_finding :: "string list"
  nf_val :: int
  no_finding_val :: "string list"
  no_finding_train :: "string list"
  train_images :: "string set"
  val_images :: "string set"

definition split_images ::
  "interpreter \<Rightarrow> int \<Rightarrow> rat \<Rightarrow> rat \<Rightarrow> string list \<Rightarrow> string list \<Rightarrow> split" where
  "split_images py seed val_split include_no_finding_ratio yolo_keys pure_nf =
     (let (fl, p) = shuffle (random_draws py seed) 0 yolo_keys;
          vc = py_int (float_round py (of_nat (length fl) * val_split));
          fv = slice_to vc fl;
          ft = slice_from vc fl;
          (nfl, p') = shuffle (random_draws py seed) p (list_of_set py pure_nf);
          n = min (py_int (float_round py (of_nat (length fl) * include_no_finding_ratio)))
                  (int (length nfl));
          sel = slice_to n nfl;
          nv = py_int (float_round py (of_nat (length sel) * val_split));
          nfv = slice_to nv sel;
          nft = slice_from nv sel
      in \<lparr>finding_image_list = fl, val_count = vc, finding_val = fv, finding_train = ft,
          no_finding_list = nfl, n_no_finding = n, selected_no_finding = sel, nf_val = nv,
          no_finding_val = nfv, no_finding_train = nft,
          train_images = set ft \<union> set nft, val_images = set fv \<union> set nfv\<rparr>)"

subsection \<open>Step 6: files, manifest and statistics\<close>

text \<open>
  \<^verbatim>\<open>
  src_img = images_path / f"{img_id}.jpg"
  if not src_img.exists():
      src_img = images_path / f"{img_id}.png"
      if not src_img.exists():
          missing += 1; continue
  \<close>
  \<open>image_files\<close> is the set of file names in \<^verbatim>\<open>images_dir\<close>.
\<close>

definition has_image :: "string set \<Rightarrow> string \<Rightarrow> bool" where
  "has_image image_files img_id =
     (img_id @ ''.jpg'' \<in> image_files \<or> img_id @ ''.png'' \<in> image_files)"

text \<open>
  The label file \<^verbatim>\<open>labels/<split>/<img_id>.txt\<close> this run writes: the lines of
  \<^verbatim>\<open>yolo_labels[img_id]\<close>, or no line for an image without findings; \<open>None\<close> when the
  run does not write the file.
\<close>

definition label_file ::
  "(string \<times> yolo_line list) list \<Rightarrow> string set \<Rightarrow> string set \<Rightarrow> string \<Rightarrow> yolo_line list option" where
  "label_file yolo_labels image_files split_set img_id =
     (if img_id \<in> split_set \<and> has_image image_files img_id
      then (case map_of yolo_labels img_id of Some yolo_lines \<Rightarrow> Some yolo_lines | None \<Rightarrow> Some [])
      else None)"

text \<open>
  \<^verbatim>\<open>dataset.yaml\<close>: the five entries of the text written by the code (\<^verbatim>\<open>path\<close>,
  \<^verbatim>\<open>train\<close>, \<^verbatim>\<open>val\<close>, \<^verbatim>\<open>nc\<close>, \<^verbatim>\<open>names\<close>). The file has no other entry.
\<close>

record dataset_yaml =
  yaml_path :: string
  yaml_train :: string
  yaml_val :: string
  yaml_nc :: nat
  yaml_names :: "string list"

text \<open>
  \<^verbatim>\<open>
  class_counts = defaultdict(int)
  for lines in yolo_labels.values():
      for line in lines:
          cls_id = int(line.split()[0]);  class_counts[cls_id] += 1
  for i in range(NUM_CLASSES):
      count = class_counts.get(i, 0);  print(...)
  \<close>
  The first field of a line is its class. The counts are printed, not written to a file.
\<close>

definition count_line :: "yolo_line \<Rightarrow> (int \<Rightarrow> nat) \<Rightarrow> (int \<Rightarrow> nat)" where
  "count_line line class_counts = class_counts (fst line := class_counts (fst line) + 1)"

definition class_counts_of :: "(string \<times> yolo_line list) list \<Rightarrow> int \<Rightarrow> nat" where
  "class_counts_of yolo_labels =
     fold (\<lambda>yolo_lines cc. fold count_line yolo_lines cc) (map snd yolo_labels) (\<lambda>c. 0)"

definition per_class_statistics :: "(string \<times> yolo_line list) list \<Rightarrow> nat list" where
  "per_class_statistics yolo_labels =
     map (\<lambda>i. class_counts_of yolo_labels (int i)) [0..<NUM_CLASSES]"

subsection \<open>The whole conversion\<close>

record conversion =
  yolo_labels :: "(string \<times> yolo_line list) list"
  images :: split
  train_labels :: "string \<Rightarrow> yolo_line list option"
  val_labels :: "string \<Rightarrow> yolo_line list option"
  manifest :: dataset_yaml
  statistics :: "nat list"

definition convert_dataset ::
  "interpreter \<Rightarrow> row list \<Rightarrow> string set \<Rightarrow> string \<Rightarrow> rat \<Rightarrow> rat \<Rightarrow> rat \<Rightarrow> int \<Rightarrow>
   py_error + conversion" where
  "convert_dataset py df image_files output_dir val_split iou_thr include_no_finding_ratio seed =
     (case fuse_annotations iou_thr (dropna (finding_rows df)) of
        Inl e \<Rightarrow> Inl e
      | Inr labels \<Rightarrow>
          (let sp = split_images py seed val_split include_no_finding_ratio
                      (map fst labels) (pure_no_finding df)
           in Inr \<lparr>yolo_labels = labels,
                   images = sp,
                   train_labels = label_file labels image_files (train_images sp),
                   val_labels = label_file labels image_files (val_images sp),
                   manifest = \<lparr>yaml_path = output_dir,
                                yaml_train = ''images/train'',
                                yaml_val = ''images/val'',
                                yaml_nc = NUM_CLASSES,
                                yaml_names = CLASS_NAMES\<rparr>,
                   statistics = per_class_statistics labels\<rparr>))"

section \<open>Vocabulary of the statements\<close>

text \<open>The area expression of \<^verbatim>\<open>_iou\<close>, and the boxes the pipeline lets through to
  fusion (\<^verbatim>\<open>x2 > x1\<close> and \<^verbatim>\<open>y2 > y1\<close>).\<close>

definition box_area :: "box \<Rightarrow> rat" where
  "box_area b = (b2 b - b0 b) * (b3 b - b1 b)"

definition valid_box :: "box \<Rightarrow> bool" where
  "valid_box b = (b0 b < b2 b \<and> b1 b < b3 b)"

text \<open>The intersection area computed by \<^verbatim>\<open>_iou\<close>.\<close>

definition inter_area :: "box \<Rightarrow> box \<Rightarrow> rat" where
  "inter_area box1 box2 =
     max 0 (min (b2 box1) (b2 box2) - max (b0 box1) (b0 box2)) *
     max 0 (min (b3 box1) (b3 box2) - max (b1 box1) (b1 box2))"

subsection \<open>The clustering rule in the specification's words\<close>

text \<open>
  Greedy and seed-anchored: the first box not yet in a cluster is the seed; of the
  boxes after it, those whose overlap with the seed exceeds the threshold join its
  cluster; the others are clustered next, in the same order.
\<close>

fun seed_clusters :: "rat \<Rightarrow> (box \<times> rat) list \<Rightarrow> (box \<times> rat) list list" where
  "seed_clusters iou_thr [] = []"
| "seed_clusters iou_thr (seed # rest) =
     (seed # filter (\<lambda>c. iou_gt (fst seed) (fst c) iou_thr) rest) #
     seed_clusters iou_thr (filter (\<lambda>c. \<not> iou_gt (fst seed) (fst c) iou_thr) rest)"

text \<open>The pooled boxes of one label, with their scores, in pooled order; and all
  clusters of a call, label by label in ascending label order.\<close>

definition label_items :: "(box \<times> rat \<times> int) list \<Rightarrow> int \<Rightarrow> (box \<times> rat) list" where
  "label_items pooled label =
     map (\<lambda>(b, s, l). (b, s)) (filter (\<lambda>(b, s, l). l = label) pooled)"

definition fused :: "(box \<times> rat) list \<Rightarrow> (py_error + box) \<times> (py_error + rat)" where
  "fused c = fuse_cluster (map fst c) (map snd c)"

text \<open>All clusters of one call, each with its label: label by label in ascending
  label order, within a label in the order the seeds are met.\<close>

definition wbf_clusters ::
  "box list list \<Rightarrow> rat list list \<Rightarrow> int list list \<Rightarrow> rat \<Rightarrow> rat \<Rightarrow> ((box \<times> rat) list \<times> int) list" where
  "wbf_clusters boxes_list scores_list labels_list iou_thr skip_box_thr =
     (let pooled = pool_boxes boxes_list scores_list labels_list skip_box_thr in
      concat (map (\<lambda>label. map (\<lambda>c. (c, label)) (seed_clusters iou_thr (label_items pooled label)))
                  (np_unique (map (snd \<circ> snd) pooled))))"






text \<open>Setting the \<^verbatim>\<open>used\<close> flag of every index of a list.\<close>

definition mark :: "nat list \<Rightarrow> bool list \<Rightarrow> bool list" where
  "mark js used = fold (\<lambda>j u. u[j := True]) js used"

text \<open>How many pooled boxes carry a label, and how many consensus boxes a result
  holds for it.\<close>

definition pooled_count :: "box list list \<Rightarrow> rat list list \<Rightarrow> int list list \<Rightarrow> rat \<Rightarrow> int \<Rightarrow> nat" where
  "pooled_count boxes_list scores_list labels_list skip_box_thr label =
     count_list (map (snd \<circ> snd) (pool_boxes boxes_list scores_list labels_list skip_box_thr)) label"

definition emitted_count :: "(py_error + box) list \<times> (py_error + rat) list \<times> int list \<Rightarrow> int \<Rightarrow> nat" where
  "emitted_count r label = count_list (merged_labels r) label"






subsection \<open>Example inputs\<close>

text \<open>Two overlapping boxes and a distant one; and a chain of three boxes in which each
  overlaps the next by more than one half, the first and the last by less.\<close>

definition exA :: box where "exA = Box (1/10) (1/10) (3/10) (3/10)"
definition exB :: box where "exB = Box (12/100) (11/100) (31/100) (29/100)"
definition exC :: box where "exC = Box (5/10) (5/10) (6/10) (6/10)"

definition chainA :: box where "chainA = Box 0 0 (30/100) 1"
definition chainB :: box where "chainB = Box (8/100) 0 (38/100) 1"
definition chainC :: box where "chainC = Box (16/100) 0 (46/100) 1"

text \<open>A table of four rows: image \<open>a\<close> with one finding drawn by two radiologists, and
  the images \<open>b\<close> and \<open>c\<close> without findings; and an interpreter whose draws are all 0,
  whose hashes are all equal and whose products are exact.\<close>

definition example_rows :: "row list" where
  "example_rows =
     [\<lparr>image_id = ''a'', class_id = 3, rad_id = ''R1'',
       x_min = Some 100, y_min = Some 100, x_max = Some 300, y_max = Some 300,
       raw_width = 2000, raw_height = 2000, scale_x = 1/2, scale_y = 1/2\<rparr>,
      \<lparr>image_id = ''a'', class_id = 3, rad_id = ''R2'',
       x_min = Some 120, y_min = Some 110, x_max = Some 310, y_max = Some 290,
       raw_width = 2000, raw_height = 2000, scale_x = 1/2, scale_y = 1/2\<rparr>,
      \<lparr>image_id = ''b'', class_id = 14, rad_id = ''R1'',
       x_min = None, y_min = None, x_max = None, y_max = None,
       raw_width = 2000, raw_height = 2000, scale_x = 1/2, scale_y = 1/2\<rparr>,
      \<lparr>image_id = ''c'', class_id = 14, rad_id = ''R1'',
       x_min = None, y_min = None, x_max = None, y_max = None,
       raw_width = 2000, raw_height = 2000, scale_x = 1/2, scale_y = 1/2\<rparr>]"

definition example_py :: interpreter where
  "example_py = \<lparr>random_draws = (\<lambda>seed p. 0), str_hash = (\<lambda>s. 0), float_round = (\<lambda>x. x)\<rparr>"

text \<open>The same interpreter in another process: the hash of \<open>b\<close> is now the greater.\<close>

definition example_py2 :: interpreter where
  "example_py2 = example_py\<lparr>str_hash := (\<lambda>s. if s = ''b'' then 1 else 0)\<rparr>"

section \<open>Proofs\<close>

subsection \<open>Facts about \<open>iou\<close>\<close>

lemma iou_unfold:
  "iou a b =
     (if box_area a + box_area b - inter_area a b > 0
      then Inr (inter_area a b / (box_area a + box_area b - inter_area a b))
      else Inr 0)"
  by (simp add: iou_def py_div_def box_area_def inter_area_def Let_def)

lemma inter_area_nonneg: "0 \<le> inter_area a b"
  by (simp add: inter_area_def)

lemma inter_area_commute: "inter_area a b = inter_area b a"
  by (simp add: inter_area_def min.commute max.commute)

lemma inter_area_le_left:
  assumes "0 < inter_area a b"
  shows "inter_area a b \<le> box_area a"
proof -
  let ?w = "min (b2 a) (b2 b) - max (b0 a) (b0 b)"
  let ?h = "min (b3 a) (b3 b) - max (b1 a) (b1 b)"
  have pos: "0 < max 0 ?w * max 0 ?h"
    using assms by (simp add: inter_area_def)
  have w: "0 < ?w"
  proof (rule ccontr)
    assume "\<not> 0 < ?w"
    then have "?w \<le> 0" by (simp only: not_less)
    then have "max 0 ?w = 0" by (rule max_absorb1)
    with pos show False by simp
  qed
  have h: "0 < ?h"
  proof (rule ccontr)
    assume "\<not> 0 < ?h"
    then have "?h \<le> 0" by (simp only: not_less)
    then have "max 0 ?h = 0" by (rule max_absorb1)
    with pos show False by simp
  qed
  have w_le: "?w \<le> b2 a - b0 a" by simp
  have h_le: "?h \<le> b3 a - b1 a" by simp
  have "inter_area a b = ?w * ?h"
    using w h by (simp add: inter_area_def max_def)
  also have "\<dots> \<le> (b2 a - b0 a) * (b3 a - b1 a)"
    using w h w_le h_le by (intro mult_mono) simp_all
  finally show ?thesis by (simp add: box_area_def)
qed

lemma inter_area_le_right:
  assumes "0 < inter_area a b"
  shows "inter_area a b \<le> box_area b"
  using inter_area_le_left [of b a] assms by (simp add: inter_area_commute)

lemma inter_area_degenerate_left:
  assumes "box_area a \<le> 0"
  shows "inter_area a b = 0"
proof (rule ccontr)
  assume "inter_area a b \<noteq> 0"
  then have pos: "0 < inter_area a b"
    using inter_area_nonneg [of a b] by simp
  then have "inter_area a b \<le> box_area a" by (rule inter_area_le_left)
  with pos assms show False by simp
qed

lemma iou_range: "\<exists>r. iou a b = Inr r \<and> 0 \<le> r \<and> r \<le> 1"
proof (cases "0 < inter_area a b")
  case True
  then have "inter_area a b \<le> box_area a" "inter_area a b \<le> box_area b"
    by (rule inter_area_le_left, rule inter_area_le_right)
  then have u: "inter_area a b \<le> box_area a + box_area b - inter_area a b"
    by simp
  with True have upos: "0 < box_area a + box_area b - inter_area a b" by simp
  have "inter_area a b / (box_area a + box_area b - inter_area a b) \<le> 1"
    using u upos by simp
  moreover have "0 \<le> inter_area a b / (box_area a + box_area b - inter_area a b)"
    using True upos by simp
  ultimately show ?thesis using upos by (simp add: iou_unfold)
next
  case False
  then have "inter_area a b = 0"
    using inter_area_nonneg [of a b] by simp
  then show ?thesis by (simp add: iou_unfold)
qed

lemma iou_commute: "iou a b = iou b a"
  by (simp add: iou_unfold inter_area_commute add.commute)

lemma iou_self:
  assumes "valid_box b"
  shows "iou b b = Inr 1"
proof -
  have "inter_area b b = box_area b"
    using assms by (simp add: inter_area_def box_area_def valid_box_def max_def)
  moreover have "0 < box_area b"
    using assms by (simp add: box_area_def valid_box_def)
  ultimately show ?thesis by (simp add: iou_unfold)
qed

lemma iou_degenerate:
  assumes "box_area a \<le> 0 \<or> box_area b \<le> 0"
  shows "iou a b = Inr 0"
proof -
  have "inter_area a b = 0"
    using assms inter_area_degenerate_left [of a b] inter_area_degenerate_left [of b a]
    by (auto simp: inter_area_commute)
  then show ?thesis by (simp add: iou_unfold)
qed


subsection \<open>The clustering loops compute the seed-anchored clusters\<close>

lemma length_mark: "length (mark js used) = length used"
  unfolding mark_def by (induction js arbitrary: used) simp_all

lemma nth_mark: "k < length used \<Longrightarrow> mark js used ! k = (used ! k \<or> k \<in> set js)"
  unfolding mark_def
proof (induction js arbitrary: used)
  case Nil
  then show ?case by simp
next
  case (Cons j js)
  then show ?case by (cases "j = k") (auto simp: nth_list_update)
qed

lemma fold_scan_step:
  assumes "distinct js"
  shows "fold (scan_step thr lb ls i) js (used, cb, cs) =
     (mark (filter (\<lambda>j. \<not> used ! j \<and> iou_gt (lb ! i) (lb ! j) thr) js) used,
      cb @ map ((!) lb) (filter (\<lambda>j. \<not> used ! j \<and> iou_gt (lb ! i) (lb ! j) thr) js),
      cs @ map ((!) ls) (filter (\<lambda>j. \<not> used ! j \<and> iou_gt (lb ! i) (lb ! j) thr) js))"
  using assms
proof (induction js arbitrary: used cb cs)
  case Nil
  then show ?case by (simp add: mark_def)
next
  case (Cons j js)
  let ?P = "\<lambda>u k. \<not> u ! k \<and> iou_gt (lb ! i) (lb ! k) thr"
  from Cons.prems have dj: "distinct js" and nj: "j \<notin> set js" by simp_all
  show ?case
  proof (cases "?P used j")
    case False
    then have "scan_step thr lb ls i j (used, cb, cs) = (used, cb, cs)"
      by (auto simp: scan_step_def)
    with False Cons.IH [OF dj, of used cb cs] show ?thesis by auto
  next
    case True
    then have st: "scan_step thr lb ls i j (used, cb, cs) =
        (used[j := True], cb @ [lb ! j], cs @ [ls ! j])"
      by (simp add: scan_step_def)
    have same: "used[j := True] ! k = used ! k" if "k \<in> set js" for k
      using that nj by (intro nth_list_update_neq) auto
    have eq: "filter (?P (used[j := True])) js = filter (?P used) js"
      by (intro filter_cong) (simp_all add: same)
    show ?thesis
      using True Cons.IH [OF dj, of "used[j := True]" "cb @ [lb ! j]" "cs @ [ls ! j]"]
      by (simp add: st eq mark_def)
  qed
qed

lemma fold_cluster_step:
  assumes "length ls = length lb" and "length used = length lb" and "i \<le> length lb"
  shows "snd (fold (cluster_step thr lb ls label) [i..<length lb] (used, fb, fs, fl)) =
     (fb @ map (fst \<circ> fused)
             (seed_clusters thr (map (\<lambda>k. (lb ! k, ls ! k)) (filter (\<lambda>k. \<not> used ! k) [i..<length lb]))),
      fs @ map (snd \<circ> fused)
             (seed_clusters thr (map (\<lambda>k. (lb ! k, ls ! k)) (filter (\<lambda>k. \<not> used ! k) [i..<length lb]))),
      fl @ replicate
             (length (seed_clusters thr (map (\<lambda>k. (lb ! k, ls ! k)) (filter (\<lambda>k. \<not> used ! k) [i..<length lb]))))
             label)"
  using assms
proof (induction "length lb - i" arbitrary: i used fb fs fl)
  case 0
  then show ?case by simp
next
  case (Suc d)
  let ?n = "length lb"
  let ?item = "\<lambda>k. (lb ! k, ls ! k)"
  from Suc.hyps(2) have lt: "i < ?n" by simp
  then have upt: "[i..<?n] = i # [Suc i..<?n]" by (rule upt_conv_Cons)
  have d: "d = ?n - Suc i" using Suc.hyps(2) by simp
  have le: "Suc i \<le> ?n" using lt by simp
  show ?case
  proof (cases "used ! i")
    case True
    then have "cluster_step thr lb ls label i (used, fb, fs, fl) = (used, fb, fs, fl)"
      by (simp add: cluster_step_def)
    with True Suc.hyps(1) [OF d Suc.prems(1) Suc.prems(2) le, of fb fs fl]
    show ?thesis by (simp add: upt)
  next
    case False
    define u0 where "u0 = used[i := True]"
    define joins where "joins = (\<lambda>j. iou_gt (lb ! i) (lb ! j) thr)"
    define rest where "rest = filter (\<lambda>k. \<not> used ! k) [Suc i..<?n]"
    define J where "J = filter (\<lambda>j. \<not> u0 ! j \<and> joins j) [Suc i..<?n]"
    define u1 where "u1 = mark J u0"
    define c where "c = ?item i # map ?item J"
    have scan: "fold (scan_step thr lb ls i) [Suc i..<?n] (u0, [lb ! i], [ls ! i]) =
        (u1, lb ! i # map ((!) lb) J, ls ! i # map ((!) ls) J)"
      using fold_scan_step [of "[Suc i..<?n]" thr lb ls i u0 "[lb ! i]" "[ls ! i]"]
      by (simp add: u1_def J_def joins_def)
    have fc: "fuse_cluster (lb ! i # map ((!) lb) J) (ls ! i # map ((!) ls) J) = fused c"
      by (simp add: fused_def c_def comp_def)
    have step: "cluster_step thr lb ls label i (used, fb, fs, fl) =
        (u1, fb @ [fst (fused c)], fs @ [snd (fused c)], fl @ [label])"
      using False scan by (simp add: cluster_step_def u0_def fc case_prod_beta)
    have u0: "u0 ! k = used ! k" if "Suc i \<le> k" for k
      unfolding u0_def using that by (intro nth_list_update_neq) auto
    have J0: "J = filter (\<lambda>j. \<not> used ! j \<and> joins j) [Suc i..<?n]"
      unfolding J_def by (rule filter_cong [OF refl]) (simp add: u0)
    have J: "J = filter joins rest"
      unfolding J0 rest_def by (simp add: conj_commute)
    have u1: "(\<not> u1 ! k) = (\<not> used ! k \<and> \<not> joins k)"
      if "Suc i \<le> k" "k < ?n" for k
    proof -
      from that have "k < length u0" using Suc.prems(2) by (simp add: u0_def)
      then have "u1 ! k = (u0 ! k \<or> k \<in> set J)" unfolding u1_def by (rule nth_mark)
      then show ?thesis using that u0 [OF that(1)] by (auto simp: J0)
    qed
    have rest0: "filter (\<lambda>k. \<not> u1 ! k) [Suc i..<?n] =
        filter (\<lambda>k. \<not> used ! k \<and> \<not> joins k) [Suc i..<?n]"
      by (rule filter_cong [OF refl]) (simp add: u1)
    have rest': "filter (\<lambda>k. \<not> u1 ! k) [Suc i..<?n] = filter (\<lambda>j. \<not> joins j) rest"
      unfolding rest0 rest_def by (simp add: conj_commute)
    have len1: "length u1 = ?n"
      using Suc.prems(2) by (simp add: u1_def u0_def length_mark)
    have "filter (\<lambda>k. \<not> used ! k) [i..<?n] = i # rest"
      using False by (simp add: upt rest_def)
    then have "seed_clusters thr (map ?item (filter (\<lambda>k. \<not> used ! k) [i..<?n])) =
        (?item i # filter (\<lambda>c. iou_gt (lb ! i) (fst c) thr) (map ?item rest)) #
        seed_clusters thr (filter (\<lambda>c. \<not> iou_gt (lb ! i) (fst c) thr) (map ?item rest))"
      by simp
    moreover have "filter (\<lambda>c. iou_gt (lb ! i) (fst c) thr) (map ?item rest) = map ?item J"
      unfolding J by (simp add: filter_map comp_def joins_def)
    moreover have "filter (\<lambda>c. \<not> iou_gt (lb ! i) (fst c) thr) (map ?item rest) =
        map ?item (filter (\<lambda>k. \<not> u1 ! k) [Suc i..<?n])"
      unfolding rest' by (simp add: filter_map comp_def joins_def)
    ultimately have spec:
      "seed_clusters thr (map ?item (filter (\<lambda>k. \<not> used ! k) [i..<?n])) =
        c # seed_clusters thr (map ?item (filter (\<lambda>k. \<not> u1 ! k) [Suc i..<?n]))"
      by (simp only: c_def)
    have "snd (fold (cluster_step thr lb ls label) [i..<?n] (used, fb, fs, fl)) =
        snd (fold (cluster_step thr lb ls label) [Suc i..<?n]
               (u1, fb @ [fst (fused c)], fs @ [snd (fused c)], fl @ [label]))"
      by (simp only: upt fold_Cons comp_apply step)
    also note Suc.hyps(1) [OF d Suc.prems(1) len1 le,
          of "fb @ [fst (fused c)]" "fs @ [snd (fused c)]" "fl @ [label]"]
    finally show ?thesis
      unfolding spec by (simp add: replicate_append_same)
  qed
qed

lemma map_nth_pair:
  assumes "length ls = length lb"
  shows "map (\<lambda>k. (lb ! k, ls ! k)) [0..<length lb] = zip lb ls"
  using assms by (intro nth_equalityI) simp_all

lemma label_step_clusters:
  "label_step thr pooled label (fb, fs, fl) =
     (fb @ map (fst \<circ> fused) (seed_clusters thr (label_items pooled label)),
      fs @ map (snd \<circ> fused) (seed_clusters thr (label_items pooled label)),
      fl @ replicate (length (seed_clusters thr (label_items pooled label))) label)"
proof -
  let ?sel = "filter (\<lambda>(b, s, l). l = label) pooled"
  let ?lb = "map fst ?sel"
  let ?ls = "map (fst \<circ> snd) ?sel"
  have len: "length ?ls = length ?lb" by simp
  have all: "filter (\<lambda>k. \<not> replicate (length ?lb) False ! k) [0..<length ?lb] = [0..<length ?lb]"
    by (rule filter_True) simp
  have items: "map (\<lambda>k. (?lb ! k, ?ls ! k)) [0..<length ?lb] = label_items pooled label"
    unfolding map_nth_pair [OF len]
    by (simp add: label_items_def zip_map_map zip_same_conv_map case_prod_beta)
  show ?thesis
    using fold_cluster_step [of ?ls ?lb "replicate (length ?lb) False" 0 thr label fb fs fl]
    unfolding all items
    by (simp add: label_step_def Let_def)
qed

lemma fold_label_step:
  "fold (label_step thr pooled) labels (fb, fs, fl) =
     (fb @ map (fst \<circ> fused \<circ> fst)
             (concat (map (\<lambda>label. map (\<lambda>c. (c, label)) (seed_clusters thr (label_items pooled label))) labels)),
      fs @ map (snd \<circ> fused \<circ> fst)
             (concat (map (\<lambda>label. map (\<lambda>c. (c, label)) (seed_clusters thr (label_items pooled label))) labels)),
      fl @ map snd
             (concat (map (\<lambda>label. map (\<lambda>c. (c, label)) (seed_clusters thr (label_items pooled label))) labels)))"
proof (induction labels arbitrary: fb fs fl)
  case Nil
  then show ?case by simp
next
  case (Cons l labels)
  show ?case
    by (simp add: label_step_clusters Cons.IH comp_def map_replicate_const)
qed

lemma np_unique_Nil: "np_unique [] = []"
  by (simp add: np_unique_def)

lemma pool_boxes_Nil: "pool_boxes [] S L skip = []"
  by (simp add: pool_boxes_def)

lemma wbf_as_clusters:
  "weighted_boxes_fusion B S L thr skip =
     (map (fst \<circ> fused \<circ> fst) (wbf_clusters B S L thr skip),
      map (snd \<circ> fused \<circ> fst) (wbf_clusters B S L thr skip),
      map snd (wbf_clusters B S L thr skip))"
proof (cases "pool_boxes B S L skip = []")
  case True
  then show ?thesis
    by (simp add: weighted_boxes_fusion_def wbf_clusters_def np_unique_Nil)
next
  case False
  then have "B \<noteq> []" by (auto simp: pool_boxes_Nil)
  with False show ?thesis
    using fold_label_step [of thr "pool_boxes B S L skip"
        "np_unique (map (snd \<circ> snd) (pool_boxes B S L skip))" "[]" "[]" "[]"]
    by (simp add: weighted_boxes_fusion_def wbf_clusters_def Let_def)
qed

lemma length_seed_clusters_le: "length (seed_clusters thr xs) \<le> length xs"
proof (induction thr xs rule: seed_clusters.induct)
  case (1 thr)
  then show ?case by simp
next
  case (2 thr seed rest)
  have "length (filter (\<lambda>c. \<not> iou_gt (fst seed) (fst c) thr) rest) \<le> length rest"
    by (rule length_filter_le)
  with 2 have "length (seed_clusters thr (filter (\<lambda>c. \<not> iou_gt (fst seed) (fst c) thr) rest))
      \<le> length rest"
    by (rule le_trans)
  then show ?case by simp
qed

lemma seed_clusters_eq_Nil: "seed_clusters thr xs = [] \<longleftrightarrow> xs = []"
  by (cases xs) simp_all

lemma seed_clusters_members:
  "c \<in> set (seed_clusters thr xs) \<Longrightarrow> c \<noteq> [] \<and> set c \<subseteq> set xs"
  by (induction thr xs rule: seed_clusters.induct) auto

lemma seed_clusters_anchored:
  "c \<in> set (seed_clusters thr xs) \<Longrightarrow> m \<in> set (tl c) \<Longrightarrow> iou_gt (fst (hd c)) (fst m) thr"
  by (induction thr xs rule: seed_clusters.induct) auto

lemma count_list_tagged:
  "count_list (map (snd \<circ> (\<lambda>c. (c, a))) ys) l = (if a = l then length ys else 0)"
  by (induction ys) auto

lemma count_labelled_concat:
  assumes "distinct labels"
  shows "count_list (map snd (concat (map (\<lambda>l'. map (\<lambda>c. (c, l')) (f l')) labels))) l =
         (if l \<in> set labels then length (f l) else 0)"
  using assms
proof (induction labels)
  case Nil
  then show ?case by simp
next
  case (Cons a labels)
  then show ?case
    by (auto simp: count_list_tagged)
qed

lemma distinct_np_unique: "distinct (np_unique xs)"
  by (simp add: np_unique_def)

lemma set_np_unique: "set (np_unique xs) = set xs"
  by (simp add: np_unique_def)

lemma count_pooled_label:
  "count_list (map (snd \<circ> snd) pooled) l = length (label_items pooled l)"
  by (induction pooled) (auto simp: label_items_def)

lemma wbf_label_count:
  "count_list (map snd (wbf_clusters B S L thr skip)) l =
     length (seed_clusters thr (label_items (pool_boxes B S L skip) l))"
proof -
  let ?pooled = "pool_boxes B S L skip"
  have "l \<notin> set (map (snd \<circ> snd) ?pooled) \<Longrightarrow> label_items ?pooled l = []"
    using count_pooled_label [of ?pooled l] by (simp add: count_list_0_iff)
  then show ?thesis
    unfolding wbf_clusters_def Let_def
    by (simp only: count_labelled_concat [OF distinct_np_unique] set_np_unique split: if_splits)
       auto
qed

subsection \<open>The fused box of a cluster\<close>












subsection \<open>Unfolding the model on concrete inputs\<close>

lemmas wbf_eval = weighted_boxes_fusion_def pool_boxes_def np_unique_def label_step_def cluster_step_def scan_step_def fuse_cluster_def np_average_def np_mean_def py_div_def iou_gt_def iou_def Let_def merged_labels_def merged_boxes_def merged_scores_def

lemmas clusters_eval = wbf_clusters_def pool_boxes_def np_unique_def label_items_def
  iou_gt_def iou_def py_div_def Let_def

subsection \<open>Loops that can fail\<close>

lemma fold_err_invariant:
  assumes "fold_err f xs s = Inr s'" and "P s"
    and "\<And>x t t'. x \<in> set xs \<Longrightarrow> P t \<Longrightarrow> f x t = Inr t' \<Longrightarrow> P t'"
  shows "P s'"
  using assms
proof (induction xs arbitrary: s)
  case Nil
  then show ?case by simp
next
  case (Cons x xs)
  from Cons.prems(1) obtain t where t: "f x s = Inr t" and rest: "fold_err f xs t = Inr s'"
    by (auto split: sum.splits)
  have "P t" using Cons.prems(2,3) t by auto
  with rest show ?case using Cons.IH Cons.prems(3) by auto
qed

lemma fold_err_total:
  assumes "\<And>x t. x \<in> set xs \<Longrightarrow> \<exists>t'. f x t = Inr t'"
  shows "\<exists>s'. fold_err f xs s = Inr s'"
  using assms
proof (induction xs arbitrary: s)
  case Nil
  then show ?case by simp
next
  case (Cons x xs)
  from Cons.prems [of x s] obtain t where t: "f x s = Inr t" by auto
  with Cons.IH [of t] Cons.prems show ?case by auto
qed

subsection \<open>Shuffling permutes\<close>

lemma shuffle_fold_mset:
  assumes "\<forall>i\<in>set is. i < length x"
  shows "mset (fst (fold (shuffle_step draws) is (x, p))) = mset x"
  using assms
proof (induction "is" arbitrary: x p)
  case Nil
  then show ?case by simp
next
  case (Cons i "is")
  define j where "j = draws p mod (i + 1)"
  define x' where "x' = x[i := x ! j, j := x ! i]"
  from Cons.prems have i: "i < length x" by simp
  have "j < i + 1" unfolding j_def by (rule mod_less_divisor) simp
  with i have j: "j < length x" by linarith
  have step: "shuffle_step draws i (x, p) = (x', Suc p)"
    by (simp add: shuffle_step_def Let_def x'_def j_def)
  have perm: "mset x' = mset x"
    unfolding x'_def using mset_swap [OF j i] by simp
  have "\<forall>k\<in>set is. k < length x'" using Cons.prems by (simp add: x'_def)
  from Cons.IH [OF this, of "Suc p"] have "mset (fst (fold (shuffle_step draws) is (x', Suc p))) = mset x"
    by (simp only: perm)
  then show ?case
    by (simp only: fold_Cons comp_apply step)
qed

lemma mset_shuffle: "mset (fst (shuffle draws p x)) = mset x"
  unfolding shuffle_def by (rule shuffle_fold_mset) simp



lemma length_shuffle: "length (fst (shuffle draws p x)) = length x"
  using mset_shuffle by (rule mset_eq_length)



lemma length_list_of_set: "length (list_of_set py s) = length s"
  by (simp add: list_of_set_def)

subsection \<open>Slices\<close>








subsection \<open>Dictionaries filled in a loop\<close>


lemma distinct_fold_map_default:
  "distinct (map fst d0) \<Longrightarrow>
   distinct (map fst (fold (\<lambda>r d. AList.map_default (key r) [r] (\<lambda>rs. rs @ [r]) d) rows d0))"
  by (induction rows arbitrary: d0) (simp_all add: distinct_map_default)


lemma distinct_group_by: "distinct (map fst (group_by key rows))"
  by (simp add: group_by_def distinct_fold_map_default)




subsection \<open>The image ids of step 2\<close>






subsection \<open>The label dictionary\<close>



subsection \<open>The split is a partition\<close>


lemma split_counts:
  "val_count (split_images py seed vs ratio keys pnf) =
     py_int (float_round py (of_nat (length keys) * vs))"
  "n_no_finding (split_images py seed vs ratio keys pnf) =
     min (py_int (float_round py (of_nat (length keys) * ratio))) (int (length pnf))"
  "nf_val (split_images py seed vs ratio keys pnf) =
     py_int (float_round py
       (of_nat (length (selected_no_finding (split_images py seed vs ratio keys pnf))) * vs))"
  by (simp_all add: split_images_def Let_def case_prod_beta length_shuffle length_list_of_set)





lemmas pipeline_eval = fuse_annotations_def dropna_def finding_rows_def group_by_def
  image_display_sizes_def image_step_def image_lines_def fusion_inputs_def rad_group_step_def
  rad_row_step_def normalize_row_def norm_coord_def clamp01_def yolo_line_of_def

lemma example_labels: "fuse_annotations (1/2) (dropna (finding_rows example_rows)) =
   Inr [(''a'', [(3, 83/400, 1/5, 39/200, 19/100)])]"
  by (simp add: pipeline_eval example_rows_def wbf_eval upt_rec)


subsection \<open>Statistics and label files\<close>





lemma num_classes: "NUM_CLASSES = 14"
  by (simp add: NUM_CLASSES_def CLASS_NAMES_def)








subsection \<open>The example run\<close>

lemma example_pure_no_finding: "pure_no_finding example_rows = [''b'', ''c'']"
  by (simp add: pure_no_finding_def no_finding_ids_def finding_ids_def finding_rows_def
      pd_unique_def example_rows_def)

lemmas split_eval = split_images_def shuffle_def shuffle_step_def list_of_set_def slice_to_def
  slice_from_def slice_index_def py_int_def Let_def

lemma example_split:
  "split_images example_py 42 (3/20) 1 [''a''] [''b'', ''c''] =
     \<lparr>finding_image_list = [''a''], val_count = 0, finding_val = [],
      finding_train = [''a''], no_finding_list = [''c'', ''b''],
      n_no_finding = 1, selected_no_finding = [''c''], nf_val = 0,
      no_finding_val = [], no_finding_train = [''c''],
      train_images = {''a'', ''c''}, val_images = {}\<rparr>"
proof -
  have "\<lfloor>3 / 20 :: rat\<rfloor> = 0" by (rule floor_unique) simp_all
  then show ?thesis
    by (simp add: split_eval example_py_def upt_rec insert_commute)
qed

lemma example_statistics:
  "per_class_statistics [(''a'', [(3, 83/400, 1/5, 39/200, 19/100)])] =
     [0, 0, 0, 1, 0, 0, 0, 0, 0, 0, 0, 0, 0, 0]"
  by (simp add: per_class_statistics_def class_counts_of_def count_line_def num_classes upt_rec)

lemma example_run:
  "convert_dataset example_py example_rows image_files out (3/20) (1/2) 1 42 =
     Inr \<lparr>yolo_labels = [(''a'', [(3, 83/400, 1/5, 39/200, 19/100)])],
          images = \<lparr>finding_image_list = [''a''], val_count = 0, finding_val = [],
                    finding_train = [''a''], no_finding_list = [''c'', ''b''],
                    n_no_finding = 1, selected_no_finding = [''c''], nf_val = 0,
                    no_finding_val = [], no_finding_train = [''c''],
                    train_images = {''a'', ''c''}, val_images = {}\<rparr>,
          train_labels = label_file [(''a'', [(3, 83/400, 1/5, 39/200, 19/100)])] image_files
                           {''a'', ''c''},
          val_labels = label_file [(''a'', [(3, 83/400, 1/5, 39/200, 19/100)])] image_files {},
          manifest = \<lparr>yaml_path = out, yaml_train = ''images/train'',
                       yaml_val = ''images/val'', yaml_nc = 14, yaml_names = CLASS_NAMES\<rparr>,
          statistics = [0, 0, 0, 1, 0, 0, 0, 0, 0, 0, 0, 0, 0, 0]\<rparr>"
  by (simp add: convert_dataset_def example_labels example_pure_no_finding example_split
      example_statistics num_classes Let_def)

lemma floor_3_20: "\<lfloor>3 / 20 :: rat\<rfloor> = 0"
  by (rule floor_unique) simp_all

lemma example_split2:
  "split_images example_py2 42 (3/20) 1 [''a''] [''b'', ''c''] =
     \<lparr>finding_image_list = [''a''], val_count = 0, finding_val = [],
      finding_train = [''a''], no_finding_list = [''b'', ''c''],
      n_no_finding = 1, selected_no_finding = [''b''], nf_val = 0,
      no_finding_val = [], no_finding_train = [''b''],
      train_images = {''a'', ''b''}, val_images = {}\<rparr>"
  by (simp add: split_eval example_py2_def example_py_def upt_rec insert_commute floor_3_20)

section \<open>The claims\<close>

text \<open>
  C6. For every valid box \<open>b\<close> (\<open>x2 > x1\<close> and \<open>y2 > y1\<close>) the overlap of \<open>b\<close> with itself
  is exactly 1; for all valid boxes \<open>a\<close> and \<open>b\<close> the overlap is symmetric and is a number
  between 0 and 1.
\<close>

theorem iou_valid_boxes:
  assumes "valid_box a" and "valid_box b"
  shows "iou a a = Inr 1 \<and> iou a b = iou b a \<and>
         (\<exists>r. iou a b = Inr r \<and> 0 \<le> r \<and> r \<le> 1)"
  using assms(1) by (simp add: iou_self iou_commute [of a b] iou_range)

theorem iou_valid_boxes_witness:
  "valid_box (Box (1/10) (1/10) (3/10) (3/10)) \<and>
   valid_box (Box (12/100) (11/100) (31/100) (29/100)) \<and>
   iou (Box (1/10) (1/10) (3/10) (3/10)) (Box (1/10) (1/10) (3/10) (3/10)) = Inr 1 \<and>
   iou (Box (1/10) (1/10) (3/10) (3/10)) (Box (12/100) (11/100) (31/100) (29/100)) =
     iou (Box (12/100) (11/100) (31/100) (29/100)) (Box (1/10) (1/10) (3/10) (3/10)) \<and>
   (\<exists>r. iou (Box (1/10) (1/10) (3/10) (3/10)) (Box (12/100) (11/100) (31/100) (29/100)) = Inr r
        \<and> 0 \<le> r \<and> r \<le> 1)"
proof -
  have va: "valid_box (Box (1/10) (1/10) (3/10) (3/10))"
    by (simp add: valid_box_def)
  have vb: "valid_box (Box (12/100) (11/100) (31/100) (29/100))"
    by (simp add: valid_box_def)
  from iou_valid_boxes [OF va vb] va vb show ?thesis by blast
qed

text \<open>
  C7. \<open>iou\<close> returns 0 whenever one of its arguments has zero or negative area, and it
  never divides by zero: for all boxes, valid or not, its result is a number between
  0 and 1 (never the error value).
\<close>

theorem iou_total_and_bounded:
  "(box_area a \<le> 0 \<or> box_area b \<le> 0 \<longrightarrow> iou a b = Inr 0) \<and>
   iou a b \<noteq> Inl ZeroDivision \<and>
   (\<exists>r. iou a b = Inr r \<and> 0 \<le> r \<and> r \<le> 1)"
proof -
  obtain r where r: "iou a b = Inr r" "0 \<le> r" "r \<le> 1"
    using iou_range [of a b] by blast
  then show ?thesis
    using iou_degenerate [of a b] by auto
qed

theorem iou_total_and_bounded_witness:
  "box_area (Box (1/2) 0 (1/2) 1) \<le> 0 \<and>
   iou (Box (1/2) 0 (1/2) 1) (Box (1/2) 0 (1/2) 1) = Inr 0 \<and>
   iou (Box (1/2) 0 (1/2) 1) (Box (1/2) 0 (1/2) 1) \<noteq> Inl ZeroDivision"
proof -
  have d: "box_area (Box (1/2) 0 (1/2) 1) \<le> 0"
    by (simp add: box_area_def)
  from iou_total_and_bounded [of "Box (1/2) 0 (1/2) 1" "Box (1/2) 0 (1/2) 1"] d
  show ?thesis by blast
qed

text \<open>
  C3. For every call of \<open>weighted_boxes_fusion\<close> (one per image) and every class label,
  the number of consensus boxes emitted for the label is at most the number of pooled
  input boxes of that label (those whose score exceeds the skip threshold), at least 1
  when that number is at least 1, and 0 when it is 0. Every consensus box has its label.
\<close>

theorem wbf_count_per_label:
  "length (merged_boxes (weighted_boxes_fusion B S L thr skip)) =
     length (merged_labels (weighted_boxes_fusion B S L thr skip)) \<and>
   emitted_count (weighted_boxes_fusion B S L thr skip) l \<le> pooled_count B S L skip l \<and>
   (1 \<le> pooled_count B S L skip l \<longrightarrow> 1 \<le> emitted_count (weighted_boxes_fusion B S L thr skip) l) \<and>
   (pooled_count B S L skip l = 0 \<longrightarrow> emitted_count (weighted_boxes_fusion B S L thr skip) l = 0)"
proof -
  let ?items = "label_items (pool_boxes B S L skip) l"
  have e: "emitted_count (weighted_boxes_fusion B S L thr skip) l = length (seed_clusters thr ?items)"
    by (simp add: emitted_count_def merged_labels_def wbf_as_clusters wbf_label_count)
  have p: "pooled_count B S L skip l = length ?items"
    by (simp add: pooled_count_def count_pooled_label)
  have le: "length (seed_clusters thr ?items) \<le> length ?items"
    by (rule length_seed_clusters_le)
  have ge: "1 \<le> length (seed_clusters thr ?items)" if "1 \<le> length ?items"
  proof -
    from that have "?items \<noteq> []" by auto
    then have "seed_clusters thr ?items \<noteq> []" by (simp add: seed_clusters_eq_Nil)
    then show ?thesis by (cases "seed_clusters thr ?items") simp_all
  qed
  have len: "length (merged_boxes (weighted_boxes_fusion B S L thr skip)) =
     length (merged_labels (weighted_boxes_fusion B S L thr skip))"
    by (simp add: merged_boxes_def merged_labels_def wbf_as_clusters)
  show ?thesis
    unfolding e p using le ge len by auto
qed

theorem wbf_count_per_label_witness:
  "1 \<le> pooled_count [[exA, exC], [exB]] [[1, 1], [1]] [[3, 2], [3]] 0 3 \<and>
   emitted_count (weighted_boxes_fusion [[exA, exC], [exB]] [[1, 1], [1]] [[3, 2], [3]] (1/2) 0) 3 = 1 \<and>
   pooled_count [[exA, exC], [exB]] [[1, 1], [1]] [[3, 2], [3]] 0 7 = 0 \<and>
   emitted_count (weighted_boxes_fusion [[exA, exC], [exB]] [[1, 1], [1]] [[3, 2], [3]] (1/2) 0) 7 = 0"
proof -
  have p3: "pooled_count [[exA, exC], [exB]] [[1, 1], [1]] [[3, 2], [3]] 0 3 = 2"
    by (simp add: pooled_count_def pool_boxes_def)
  have p7: "pooled_count [[exA, exC], [exB]] [[1, 1], [1]] [[3, 2], [3]] 0 7 = 0"
    by (simp add: pooled_count_def pool_boxes_def)
  have e3: "emitted_count (weighted_boxes_fusion [[exA, exC], [exB]] [[1, 1], [1]] [[3, 2], [3]] (1/2) 0) 3 = 1"
    by (simp add: emitted_count_def wbf_eval exA_def exB_def exC_def upt_rec)
  from wbf_count_per_label [of "[[exA, exC], [exB]]" "[[1, 1], [1]]" "[[3, 2], [3]]" "1/2" 0 3]
       wbf_count_per_label [of "[[exA, exC], [exB]]" "[[1, 1], [1]]" "[[3, 2], [3]]" "1/2" 0 7]
       p3 p7 e3
  show ?thesis by simp
qed


text \<open>
  C4. Clustering is seed-anchored. The result of \<open>weighted_boxes_fusion\<close> is, label by
  label, one fused box per cluster of \<open>seed_clusters\<close>: the first box not yet clustered
  is the seed, and a later unclustered box joins iff its overlap with the seed exceeds
  the threshold. So every member of a cluster other than its seed overlaps the seed by
  more than the threshold: a box that overlaps only a non-seed member that much is
  never added.
\<close>

theorem wbf_seed_anchored:
  "weighted_boxes_fusion B S L thr skip =
     (map (fst \<circ> fused \<circ> fst) (wbf_clusters B S L thr skip),
      map (snd \<circ> fused \<circ> fst) (wbf_clusters B S L thr skip),
      map snd (wbf_clusters B S L thr skip)) \<and>
   (\<forall>(c, l) \<in> set (wbf_clusters B S L thr skip).
      c \<noteq> [] \<and> (\<forall>m \<in> set (tl c). iou_gt (fst (hd c)) (fst m) thr))"
proof -
  have "c \<noteq> [] \<and> (\<forall>m \<in> set (tl c). iou_gt (fst (hd c)) (fst m) thr)"
    if "(c, l) \<in> set (wbf_clusters B S L thr skip)" for c l
  proof -
    from that have "c \<in> set (seed_clusters thr (label_items (pool_boxes B S L skip) l))"
      by (auto simp: wbf_clusters_def Let_def)
    then show ?thesis
      using seed_clusters_members seed_clusters_anchored by blast
  qed
  then show ?thesis
    using wbf_as_clusters [of B S L thr skip] by blast
qed

theorem wbf_seed_anchored_witness:
  "iou_gt chainB chainC (1/2) \<and> \<not> iou_gt chainA chainC (1/2) \<and>
   wbf_clusters [[chainA, chainB, chainC]] [[1, 1, 1]] [[0, 0, 0]] (1/2) 0 =
     [([(chainA, 1), (chainB, 1)], 0), ([(chainC, 1)], 0)] \<and>
   merged_boxes (weighted_boxes_fusion [[chainA, chainB, chainC]] [[1, 1, 1]] [[0, 0, 0]] (1/2) 0) =
     [Inr (Box (4/100) 0 (34/100) 1), Inr chainC]"
proof -
  have j: "iou_gt chainB chainC (1/2)" "\<not> iou_gt chainA chainC (1/2)"
    by (simp_all add: iou_gt_def iou_def py_div_def chainA_def chainB_def chainC_def)
  have cl: "wbf_clusters [[chainA, chainB, chainC]] [[1, 1, 1]] [[0, 0, 0]] (1/2) 0 =
     [([(chainA, 1), (chainB, 1)], 0), ([(chainC, 1)], 0)]"
    by (simp add: clusters_eval chainA_def chainB_def chainC_def)
  have f: "fused [(chainA, 1), (chainB, 1)] = (Inr (Box (4/100) 0 (34/100) 1), Inr 1)"
      "fused [(chainC, 1)] = (Inr chainC, Inr 1)"
    by (simp_all add: fused_def fuse_cluster_def np_average_def np_mean_def py_div_def
        chainA_def chainB_def chainC_def)
  from wbf_seed_anchored [of "[[chainA, chainB, chainC]]" "[[1, 1, 1]]" "[[0, 0, 0]]" "1/2" 0]
  have "weighted_boxes_fusion [[chainA, chainB, chainC]] [[1, 1, 1]] [[0, 0, 0]] (1/2) 0 =
     (map (fst \<circ> fused \<circ> fst) (wbf_clusters [[chainA, chainB, chainC]] [[1, 1, 1]] [[0, 0, 0]] (1/2) 0),
      map (snd \<circ> fused \<circ> fst) (wbf_clusters [[chainA, chainB, chainC]] [[1, 1, 1]] [[0, 0, 0]] (1/2) 0),
      map snd (wbf_clusters [[chainA, chainB, chainC]] [[1, 1, 1]] [[0, 0, 0]] (1/2) 0))"
    by blast
  then have "merged_boxes (weighted_boxes_fusion [[chainA, chainB, chainC]] [[1, 1, 1]] [[0, 0, 0]] (1/2) 0) =
     [Inr (Box (4/100) 0 (34/100) 1), Inr chainC]"
    by (simp add: merged_boxes_def cl f)
  with j cl show ?thesis by blast
qed








text \<open>
  C2. Two runs on the same table, the same image directory and the same seed, in two
  processes whose string hashes differ: \<^verbatim>\<open>list(pure_no_finding)\<close> enumerates the set in
  another order, the seeded shuffle permutes positions, and another background image
  is selected. The label lines and the split of the finding images are the same in
  both runs; the train set and the label files written for background images are not.
\<close>

theorem split_depends_on_hash_order:
  "(case (convert_dataset example_py example_rows {''a.jpg'', ''b.jpg'', ''c.jpg''} ''out''
            (3/20) (1/2) 1 42,
          convert_dataset example_py2 example_rows {''a.jpg'', ''b.jpg'', ''c.jpg''} ''out''
            (3/20) (1/2) 1 42) of
      (Inr d1, Inr d2) \<Rightarrow>
         yolo_labels d1 = yolo_labels d2 \<and>
         train_images (images d1) = {''a'', ''c''} \<and>
         train_images (images d2) = {''a'', ''b''} \<and>
         train_labels d1 ''c'' = Some [] \<and> train_labels d2 ''c'' = None
    | _ \<Rightarrow> False)"
proof -
  have r2: "convert_dataset example_py2 example_rows image_files out (3/20) (1/2) 1 42 =
     Inr \<lparr>yolo_labels = [(''a'', [(3, 83/400, 1/5, 39/200, 19/100)])],
          images = split_images example_py2 42 (3/20) 1 [''a''] [''b'', ''c''],
          train_labels = label_file [(''a'', [(3, 83/400, 1/5, 39/200, 19/100)])] image_files
             (train_images (split_images example_py2 42 (3/20) 1 [''a''] [''b'', ''c''])),
          val_labels = label_file [(''a'', [(3, 83/400, 1/5, 39/200, 19/100)])] image_files
             (val_images (split_images example_py2 42 (3/20) 1 [''a''] [''b'', ''c''])),
          manifest = \<lparr>yaml_path = out, yaml_train = ''images/train'',
                       yaml_val = ''images/val'', yaml_nc = 14, yaml_names = CLASS_NAMES\<rparr>,
          statistics = [0, 0, 0, 1, 0, 0, 0, 0, 0, 0, 0, 0, 0, 0]\<rparr>" for image_files out
    by (simp add: convert_dataset_def example_labels example_pure_no_finding
        example_statistics num_classes Let_def)
  show ?thesis
    by (simp add: example_run r2 example_split2 label_file_def has_image_def)
qed

end
